theory Spec2Isabelle
  imports Main
begin

section \<open>The Matrix channel: data model\<close>

text \<open>
  A shallow embedding of \<^verbatim>\<open>src/channels/matrix.ts\<close> (class \<^verbatim>\<open>MatrixChannel\<close>).
  The class fields become a record that every method takes and returns. Each call the
  class makes to the Matrix client library is an input of the model (what the library
  answered) and leaves an entry in a trace, so that theorems can speak about what went
  over the network. Log lines are not modelled.
\<close>

type_synonym item = "string \<times> string"
  \<comment> \<open>\<^verbatim>\<open>{ jid: string; text: string }\<close>, the entries of \<^verbatim>\<open>outgoingQueue\<close>\<close>

datatype error =
    ConfigError string
  | LoginError
  | SyncTimeout
  | SyncFailed string
  | TransportError
  | RangeError
  | TypeError

record sdk_client =
  baseUrl :: string
  accessToken :: "string option"
  client_userId :: "string option"

text \<open>
  \<open>connected\<close>, \<open>userId\<close>, \<open>outgoingQueue\<close> and \<open>client\<close> are the private fields of
  the class. \<open>wire\<close> is not a field: it lists the calls of \<^verbatim>\<open>client.sendMessage\<close> that
  have settled, in the order of settling, each with whether its promise resolved.
\<close>

record adapter =
  connected :: bool
  userId :: string
  outgoingQueue :: "item list"
  client :: "sdk_client option"
  wire :: "(item \<times> bool) list"

definition new_adapter :: adapter where
  "new_adapter =
     \<lparr>connected = False, userId = [], outgoingQueue = [], client = None, wire = []\<rparr>"

definition attempted :: "adapter \<Rightarrow> item list" where
  "attempted s = map fst (wire s)"

definition transmitted :: "adapter \<Rightarrow> item list" where
  "transmitted s = map fst (filter snd (wire s))"

section \<open>Sending and the outgoing queue\<close>

text \<open>
  What the environment does while \<^verbatim>\<open>await client.sendMessage(...)\<close> is pending:
  \<open>ok\<close> says whether the promise resolves (otherwise it rejects), and \<open>dropped\<close>
  whether \<^verbatim>\<open>disconnect()\<close> ran in the meantime. JavaScript runs the code between two
  awaits without interruption, so a pending transport call is the only point at which
  the connection flag can change under a running \<^verbatim>\<open>sendMessage\<close> or flush. The
  functions of this section describe one task that runs alone. Tasks that overlap (a
  second flush started while a call of the first is pending, a \<^verbatim>\<open>sendMessage\<close> during a
  flush) are described by the events of the section on overlapping tasks.
\<close>

record reply =
  ok :: bool
  dropped :: bool

definition disconnect :: "adapter \<Rightarrow> adapter" where
  "disconnect s = s\<lparr>connected := False\<rparr>"

definition client_sendMessage :: "reply \<Rightarrow> item \<Rightarrow> adapter \<Rightarrow> (error + unit) \<times> adapter" where
  "client_sendMessage r m s =
     (let s1 = s\<lparr>wire := wire s @ [(m, ok r)]\<rparr>;
          s2 = (if dropped r then disconnect s1 else s1)
      in (if ok r then Inr () else Inl TransportError, s2))"

text \<open>
  \<^verbatim>\<open>sendMessage\<close>, lines 159-181. The result is what the caller of the async method
  observes: \<open>Inr ()\<close> when the promise resolves, \<open>Inl e\<close> when it rejects.
\<close>

definition sendMessage :: "reply \<Rightarrow> string \<Rightarrow> string \<Rightarrow> adapter \<Rightarrow> (error + unit) \<times> adapter" where
  "sendMessage r roomId text s =
     (if \<not> connected s then
        (Inr (), s\<lparr>outgoingQueue := outgoingQueue s @ [(roomId, text)]\<rparr>)
      else
        (case client_sendMessage r (roomId, text) s of
           (Inr u, s') \<Rightarrow> (Inr (), s')
         | (Inl err, s') \<Rightarrow>
             (Inr (), s'\<lparr>outgoingQueue := outgoingQueue s' @ [(roomId, text)]\<rparr>)))"

text \<open>
  One turn of the loop of \<^verbatim>\<open>flushOutgoingQueue\<close> (lines 219-224): \<^verbatim>\<open>shift()\<close> takes
  the head, \<^verbatim>\<open>sendMessage\<close> is awaited inside \<^verbatim>\<open>try\<close>, and the \<^verbatim>\<open>catch\<close> only logs.
  The loop runs the body only under its guard, which makes the queue non-empty; the
  first case is there to make the function total and is never reached from the loop.
\<close>

definition flush_body :: "reply \<Rightarrow> adapter \<Rightarrow> adapter" where
  "flush_body r s =
     (case outgoingQueue s of
        [] \<Rightarrow> s
      | item # rest \<Rightarrow>
          (case sendMessage r (fst item) (snd item) (s\<lparr>outgoingQueue := rest\<rparr>) of
             (Inr u, s') \<Rightarrow> s'
           | (Inl err, s') \<Rightarrow> s'))"

definition flush_guard :: "adapter \<Rightarrow> bool" where
  "flush_guard s = (length (outgoingQueue s) > 0 \<and> connected s)"

text \<open>
  \<^verbatim>\<open>flushOutgoingQueue\<close>, lines 217-226. The list holds the answers of the transport
  to the calls the loop makes, in order. \<open>Some s'\<close> is the state in which the loop has
  exited; \<open>None\<close> says that the answers ran out while the guard still held, that is,
  the loop is still running after that many transport calls.
\<close>

fun flushOutgoingQueue :: "reply list \<Rightarrow> adapter \<Rightarrow> adapter option" where
  "flushOutgoingQueue [] s = (if flush_guard s then None else Some s)"
| "flushOutgoingQueue (r # rs) s =
     (if flush_guard s then flushOutgoingQueue rs (flush_body r s) else Some s)"

text \<open>
  The state the loop has reached after the given answers, whether it has exited or not.
\<close>

fun flush_progress :: "reply list \<Rightarrow> adapter \<Rightarrow> adapter" where
  "flush_progress [] s = s"
| "flush_progress (r # rs) s =
     (if flush_guard s then flush_progress rs (flush_body r s) else s)"


text \<open>The four answers a transport call can get.\<close>

definition rejects :: reply where
  "rejects = \<lparr>ok = False, dropped = False\<rparr>"

definition resolves :: reply where
  "resolves = \<lparr>ok = True, dropped = False\<rparr>"

definition rejects_dropped :: reply where
  "rejects_dropped = \<lparr>ok = False, dropped = True\<rparr>"

definition resolves_dropped :: reply where
  "resolves_dropped = \<lparr>ok = True, dropped = True\<rparr>"

text \<open>
  Lines 140-141: the handler of the first sync signal sets the flag when the state is
  \<^verbatim>\<open>PREPARED\<close>, and starts a flush.
\<close>

definition sync_prepared :: "adapter \<Rightarrow> adapter" where
  "sync_prepared s = s\<lparr>connected := True\<rparr>"


section \<open>Overlapping tasks\<close>

text \<open>
  Nothing in the class keeps two tasks from being in flight at once: every sync signal
  with state \<^verbatim>\<open>PREPARED\<close> starts a flush loop (lines 140-147, no guard against a loop
  that is already running), and \<^verbatim>\<open>sendMessage\<close> can be called at any time. Each task
  runs without interruption from one await to the next, so a run of the adapter is a
  sequence of events:
  \<^item> \<open>Sync\<close>: a sync signal with state \<^verbatim>\<open>PREPARED\<close> arrives; the flag is set and a new
    flush loop runs up to its first await;
  \<^item> \<open>Disconnect\<close>: \<^verbatim>\<open>disconnect()\<close> is called;
  \<^item> \<open>Send roomId text\<close>: \<^verbatim>\<open>sendMessage\<close> is called from outside and runs up to its
    await, if it has one;
  \<^item> \<open>Settle i success\<close>: the pending transport call number \<open>i\<close> (counted from 0, oldest
    first) resolves or rejects, and the \<^verbatim>\<open>sendMessage\<close> that awaited it runs to its end;
  \<^item> \<open>Resume\<close>: a flush loop whose \<^verbatim>\<open>sendMessage\<close> has returned checks its guard again
    and, if it holds, runs up to its next await.

  \<open>pending\<close> lists the transport calls in flight, oldest first, each with the kind of
  task that awaits it. \<open>started\<close> lists every transport call ever started, in the order
  of starting. \<open>resuming\<close> counts the flush loops whose \<^verbatim>\<open>sendMessage\<close> has returned and
  that have not checked their guard yet. The field \<open>wire\<close> of the adapter lists the
  calls that have settled, in the order of settling.
\<close>

datatype task = Loop | Plain

record system =
  chan :: adapter
  pending :: "(item \<times> task) list"
  started :: "(item \<times> task) list"
  resuming :: nat

datatype event = Sync | Disconnect | Send string string | Settle nat bool | Resume

definition idle :: "adapter \<Rightarrow> system" where
  "idle s = \<lparr>chan = s, pending = [], started = [], resuming = 0\<rparr>"

text \<open>\<^verbatim>\<open>sendMessage\<close> up to its await: lines 160-169.\<close>

definition begin_sendMessage :: "task \<Rightarrow> string \<Rightarrow> string \<Rightarrow> system \<Rightarrow> system" where
  "begin_sendMessage t roomId text sys =
     (if \<not> connected (chan sys) then
        sys\<lparr>chan := (chan sys)\<lparr>outgoingQueue := outgoingQueue (chan sys) @ [(roomId, text)]\<rparr>\<rparr>
      else
        sys\<lparr>pending := pending sys @ [((roomId, text), t)],
            started := started sys @ [((roomId, text), t)]\<rparr>)"

text \<open>
  A flush loop from its guard to its next await: lines 218-221. Under the guard the
  adapter is connected, so the \<^verbatim>\<open>sendMessage\<close> it calls starts a transport call.
\<close>

definition loop_turn :: "system \<Rightarrow> system" where
  "loop_turn sys =
     (if flush_guard (chan sys) then
        (case outgoingQueue (chan sys) of
           [] \<Rightarrow> sys
         | item # rest \<Rightarrow>
             begin_sendMessage Loop (fst item) (snd item)
               (sys\<lparr>chan := (chan sys)\<lparr>outgoingQueue := rest\<rparr>\<rparr>))
      else sys)"

text \<open>
  \<^verbatim>\<open>sendMessage\<close> from its await to its end: lines 169-180. A call that rejects is pushed
  to the tail of the queue. When a flush loop awaited the \<^verbatim>\<open>sendMessage\<close>, the loop is
  ready to go on.
\<close>

definition settle :: "nat \<Rightarrow> bool \<Rightarrow> system \<Rightarrow> system" where
  "settle i success sys =
     (if i < length (pending sys) then
        let item = fst (pending sys ! i);
            t = snd (pending sys ! i);
            c1 = (chan sys)\<lparr>wire := wire (chan sys) @ [(item, success)]\<rparr>;
            c2 = (if success then c1 else c1\<lparr>outgoingQueue := outgoingQueue c1 @ [item]\<rparr>)
        in sys\<lparr>chan := c2,
               pending := take i (pending sys) @ drop (Suc i) (pending sys),
               resuming := (case t of Loop \<Rightarrow> Suc (resuming sys) | Plain \<Rightarrow> resuming sys)\<rparr>
      else sys)"

fun step :: "event \<Rightarrow> system \<Rightarrow> system" where
  "step Sync sys = loop_turn (sys\<lparr>chan := sync_prepared (chan sys)\<rparr>)"
| "step Disconnect sys = sys\<lparr>chan := disconnect (chan sys)\<rparr>"
| "step (Send roomId text) sys = begin_sendMessage Plain roomId text sys"
| "step (Settle i success) sys = settle i success sys"
| "step Resume sys =
     (if resuming sys = 0 then sys else loop_turn (sys\<lparr>resuming := resuming sys - 1\<rparr>))"

fun run :: "event list \<Rightarrow> system \<Rightarrow> system" where
  "run [] sys = sys"
| "run (e # es) sys = run es (step e sys)"

text \<open>The messages the flush loops have taken from the queue, in the order of taking.\<close>

definition popped :: "system \<Rightarrow> item list" where
  "popped sys = map fst (filter (\<lambda>c. snd c = Loop) (started sys))"




text \<open>
  A flush loop that runs alone, as events: after the sync signal that starts it, each
  answer of the transport is a disconnect, if one came during the call, the settling of
  the only pending call, and the loop going on.
\<close>

definition answer_events :: "reply \<Rightarrow> event list" where
  "answer_events r = (if dropped r then [Disconnect] else []) @ [Settle 0 (ok r), Resume]"



section \<open>Inbound events\<close>

text \<open>
  The values that can stand in the content of an event, which is JSON; numbers in
  Matrix events are integers. An object or an array is \<open>JObject\<close>: the handler never
  looks inside one.
\<close>

datatype json = JNull | JBool bool | JNum int | JStr string | JObject

text \<open>
  What the handler of \<^verbatim>\<open>RoomEvent.Timeline\<close> reads of an event and of its room. A
  value that can be \<^verbatim>\<open>undefined\<close> is an option. \<open>ev_body\<close> is \<^verbatim>\<open>event.getContent().body\<close>,
  which the library does not type. \<open>ev_ts\<close> is \<^verbatim>\<open>event.getTs()\<close>, the field
  \<^verbatim>\<open>origin_server_ts\<close>: a number as the library declares it, or missing. \<open>members\<close> gives
  the display name of a member of the room (\<^verbatim>\<open>room.getMember(id)?.name\<close>).
\<close>

record matrix_event =
  ev_type :: string
  ev_sender :: "string option"
  ev_body :: "json option"
  ev_ts :: "int option"
  ev_id :: "string option"

record room =
  roomId :: string
  room_name :: string
  members :: "string \<rightharpoonup> string"

text \<open>\<^verbatim>\<open>NewMessage\<close>, as the handler fills it (lines 119-128).\<close>

record new_message =
  msg_id :: string
  chat_jid :: string
  sender :: string
  sender_name :: string
  content :: string
  timestamp :: string
  is_from_me :: bool
  is_bot_message :: bool

text \<open>
  The two callbacks of \<^verbatim>\<open>MatrixChannelOpts\<close>. The handler returns the calls it makes, in
  order; a callback is taken to return normally.
\<close>

datatype callback =
    OnChatMetadata string string string
  | OnMessage string new_message

text \<open>JavaScript's \<^verbatim>\<open>a || b\<close> on strings: the empty string and \<^verbatim>\<open>undefined\<close> are falsy.\<close>

definition or_else :: "string \<Rightarrow> string \<Rightarrow> string" where
  "or_else a b = (if a = [] then b else a)"

definition opt_or :: "string option \<Rightarrow> string \<Rightarrow> string" where
  "opt_or a b = (case a of None \<Rightarrow> b | Some x \<Rightarrow> or_else x b)"

definition truthy :: "string option \<Rightarrow> bool" where
  "truthy a = (case a of None \<Rightarrow> False | Some x \<Rightarrow> x \<noteq> [])"

text \<open>Truthiness of a JSON value, and \<^verbatim>\<open>content.body || ''\<close> (line 106).\<close>

fun js_truthy :: "json \<Rightarrow> bool" where
  "js_truthy JNull = False"
| "js_truthy (JBool b) = b"
| "js_truthy (JNum n) = (n \<noteq> 0)"
| "js_truthy (JStr x) = (x \<noteq> [])"
| "js_truthy JObject = True"

definition body_or_empty :: "json option \<Rightarrow> json" where
  "body_or_empty v =
     (case v of None \<Rightarrow> JStr [] | Some j \<Rightarrow> if js_truthy j then j else JStr [])"

text \<open>\<^verbatim>\<open>String.prototype.startsWith\<close> with one argument.\<close>

definition startsWith :: "string \<Rightarrow> string \<Rightarrow> bool" where
  "startsWith s p = (take (length p) s = p)"

text \<open>
  \<^verbatim>\<open>new Date(ts).toISOString()\<close> (line 107). A \<^verbatim>\<open>Date\<close> holds a time value of at most
  8.64e15 milliseconds either side of the epoch; built from a number beyond that, or
  from \<^verbatim>\<open>undefined\<close>, it is invalid, and \<^verbatim>\<open>toISOString\<close> throws a RangeError on an
  invalid date. How a valid time value is written out is the parameter \<open>fmt\<close>.
\<close>

definition max_time_value :: int where
  "max_time_value = 8640000000000000"

definition toISOString :: "(int \<Rightarrow> string) \<Rightarrow> int option \<Rightarrow> error + string" where
  "toISOString fmt ts =
     (case ts of
        None \<Rightarrow> Inl RangeError
      | Some t \<Rightarrow>
          if - max_time_value \<le> t \<and> t \<le> max_time_value then Inr (fmt t)
          else Inl RangeError)"

text \<open>
  \<^verbatim>\<open>groups[roomId]\<close> (line 115). The registry is a plain object
  (\<^verbatim>\<open>Record<string, RegisteredGroup>\<close>): its own entries are objects, hence truthy, and a
  key it does not have is looked up in \<^verbatim>\<open>Object.prototype\<close>, whose members are all
  truthy.
\<close>

definition Object_prototype_keys :: "string list" where
  "Object_prototype_keys =
     [''constructor'', ''__defineGetter__'', ''__defineSetter__'', ''hasOwnProperty'',
      ''__lookupGetter__'', ''__lookupSetter__'', ''isPrototypeOf'',
      ''propertyIsEnumerable'', ''toString'', ''valueOf'', ''__proto__'',
      ''toLocaleString'']"

definition lookup_truthy :: "(string \<rightharpoonup> 'g) \<Rightarrow> string \<Rightarrow> bool" where
  "lookup_truthy groups k = (k \<in> dom groups \<or> k \<in> set Object_prototype_keys)"

text \<open>\<^verbatim>\<open>ownsJid\<close>, lines 187-190.\<close>

definition ownsJid :: "string \<Rightarrow> bool" where
  "ownsJid jid = startsWith jid ''!''"

text \<open>
  The handler of \<^verbatim>\<open>RoomEvent.Timeline\<close>, lines 93-130. Two things come from outside the
  file and are parameters: \<open>ASSISTANT_NAME\<close> (a constant of \<^verbatim>\<open>config.js\<close>) and
  \<open>registeredGroups\<close>, the query of \<^verbatim>\<open>MatrixChannelOpts\<close>, given as it answers at the
  moment of this call. The result is how the handler ends (\<open>Inl e\<close> when it throws) and
  the callbacks it has called by then. It throws at line 107 on an invalid date, before
  any callback, and at line 117 when the body is neither a string nor falsy, after the
  metadata callback.
\<close>

definition on_timeline ::
  "string \<Rightarrow> (int \<Rightarrow> string) \<Rightarrow> (unit \<Rightarrow> (string \<rightharpoonup> 'g)) \<Rightarrow> adapter
    \<Rightarrow> matrix_event \<Rightarrow> room option \<Rightarrow> (error + unit) \<times> callback list" where
  "on_timeline ASSISTANT_NAME fmt registeredGroups s event room_opt =
     (case room_opt of
        None \<Rightarrow> (Inr (), [])
      | Some room \<Rightarrow>
          if ev_type event \<noteq> ''m.room.message'' then (Inr (), [])
          else if ev_sender event = Some (userId s) then (Inr (), [])
          else if \<not> connected s then (Inr (), [])
          else
            let body = body_or_empty (ev_body event)
            in case toISOString fmt (ev_ts event) of
                 Inl err \<Rightarrow> (Inl err, [])
               | Inr ts \<Rightarrow>
                   let roomName = or_else (room_name room) (roomId room);
                       metadata = OnChatMetadata (roomId room) ts roomName;
                       groups = registeredGroups ()
                   in if lookup_truthy groups (roomId room) then
                        let senderName =
                              opt_or (members room (opt_or (ev_sender event) []))
                                (opt_or (ev_sender event) ''unknown'')
                        in case body of
                             JStr b \<Rightarrow>
                               (Inr (),
                                [metadata,
                                 OnMessage (roomId room)
                                   \<lparr>msg_id = opt_or (ev_id event) [],
                                    chat_jid = roomId room,
                                    sender = opt_or (ev_sender event) [],
                                    sender_name = senderName,
                                    content = b,
                                    timestamp = ts,
                                    is_from_me = False,
                                    is_bot_message = startsWith b (ASSISTANT_NAME @ '':'')\<rparr>])
                           | _ \<Rightarrow> (Inl TypeError, [metadata])
                      else (Inr (), [metadata]))"

section \<open>Connecting\<close>

text \<open>The environment variables \<^verbatim>\<open>connect\<close> reads (lines 39-42 and 57).\<close>

record environment =
  MATRIX_HOMESERVER :: "string option"
  MATRIX_USERNAME :: "string option"
  MATRIX_PASSWORD :: "string option"
  MATRIX_ACCESS_TOKEN :: "string option"
  MATRIX_USER_ID :: "string option"

text \<open>
  The calls of \<^verbatim>\<open>connect\<close> that go to the homeserver: \<^verbatim>\<open>client.login\<close> and
  \<^verbatim>\<open>client.startClient\<close>. \<^verbatim>\<open>sdk.createClient\<close> only builds an object.
\<close>

datatype net_call = Login string string | StartClient

record login_response =
  user_id :: string
  access_token :: string

text \<open>
  What ends the wait of lines 133-156: the state of the first sync signal, or the 30
  seconds passing without one.
\<close>

datatype sync_signal = SyncState string | NoSignal

definition await_sync :: "sync_signal \<Rightarrow> adapter \<Rightarrow> (error + unit) \<times> adapter" where
  "await_sync sig s =
     (case sig of
        NoSignal \<Rightarrow> (Inl SyncTimeout, s)
      | SyncState st \<Rightarrow>
          if st = ''PREPARED'' then (Inr (), sync_prepared s)
          else (Inl (SyncFailed st), s))"

definition start_and_sync ::
  "sync_signal \<Rightarrow> net_call list \<Rightarrow> adapter \<Rightarrow> (error + unit) \<times> adapter \<times> net_call list" where
  "start_and_sync sig calls s =
     (case await_sync sig s of (res, s') \<Rightarrow> (res, s', calls @ [StartClient]))"

text \<open>
  \<^verbatim>\<open>connect\<close>, lines 38-157. \<open>login_answer\<close> is what \<^verbatim>\<open>client.login\<close> would answer and
  \<open>sig\<close> what ends the wait for the first sync. The result is what the caller observes,
  the fields afterwards, and the calls made to the homeserver, in order. The flush that
  a successful sync starts is not awaited by \<^verbatim>\<open>connect\<close>; it is \<open>flushOutgoingQueue\<close> on
  the resulting state.
\<close>

definition connect ::
  "environment \<Rightarrow> (error + login_response) \<Rightarrow> sync_signal \<Rightarrow> adapter
    \<Rightarrow> (error + unit) \<times> adapter \<times> net_call list" where
  "connect env login_answer sig s =
     (if \<not> truthy (MATRIX_HOMESERVER env) then
        (Inl (ConfigError ''MATRIX_HOMESERVER environment variable is required''), s, [])
      else
        let homeserverUrl = opt_or (MATRIX_HOMESERVER env) [];
            s1 = s\<lparr>client :=
                   Some \<lparr>baseUrl = homeserverUrl, accessToken = None, client_userId = None\<rparr>\<rparr>
        in if truthy (MATRIX_ACCESS_TOKEN env) then
             start_and_sync sig []
               (s1\<lparr>client :=
                     Some \<lparr>baseUrl = homeserverUrl, accessToken = MATRIX_ACCESS_TOKEN env,
                           client_userId = MATRIX_USER_ID env\<rparr>,
                   userId := opt_or (MATRIX_USER_ID env) []\<rparr>)
           else if truthy (MATRIX_USERNAME env) \<and> truthy (MATRIX_PASSWORD env) then
             (let call = Login (opt_or (MATRIX_USERNAME env) []) (opt_or (MATRIX_PASSWORD env) [])
              in case login_answer of
                   Inl e \<Rightarrow> (Inl e, s1, [call])
                 | Inr loginResponse \<Rightarrow>
                     start_and_sync sig [call]
                       (s1\<lparr>userId := user_id loginResponse,
                           client :=
                             Some \<lparr>baseUrl = homeserverUrl,
                                   accessToken = Some (access_token loginResponse),
                                   client_userId = Some (user_id loginResponse)\<rparr>\<rparr>))
           else
             (Inl (ConfigError
                ''Either MATRIX_ACCESS_TOKEN or MATRIX_USERNAME+MATRIX_PASSWORD required''),
              s1, []))"

section \<open>Properties of sending\<close>

lemma client_sendMessage_result:
  "fst (client_sendMessage r m s) = (if ok r then Inr () else Inl TransportError)"
  by (simp add: client_sendMessage_def Let_def)

lemma client_sendMessage_queue:
  "outgoingQueue (snd (client_sendMessage r m s)) = outgoingQueue s"
  by (simp add: client_sendMessage_def Let_def disconnect_def)

lemma client_sendMessage_wire:
  "wire (snd (client_sendMessage r m s)) = wire s @ [(m, ok r)]"
  by (simp add: client_sendMessage_def Let_def disconnect_def)

lemma client_sendMessage_connected:
  "connected (snd (client_sendMessage r m s)) = (connected s \<and> \<not> dropped r)"
  by (simp add: client_sendMessage_def Let_def disconnect_def)

text \<open>
  C4. \<^verbatim>\<open>sendMessage\<close> never rejects. While not connected it appends the pair to the
  tail of the queue and changes nothing else, so no transport call is made. While
  connected, a transport call that fails appends the pair to the tail of the queue and
  the error does not reach the caller.
\<close>

theorem sendMessage_never_raises:
  "fst (sendMessage r jid text s) = Inr ()
   \<and> (\<not> connected s \<longrightarrow>
        snd (sendMessage r jid text s) = s\<lparr>outgoingQueue := outgoingQueue s @ [(jid, text)]\<rparr>
        \<and> attempted (snd (sendMessage r jid text s)) = attempted s)
   \<and> (connected s \<and> \<not> ok r \<longrightarrow>
        outgoingQueue (snd (sendMessage r jid text s)) = outgoingQueue s @ [(jid, text)]
        \<and> attempted (snd (sendMessage r jid text s)) = attempted s @ [(jid, text)]
        \<and> transmitted (snd (sendMessage r jid text s)) = transmitted s)"
  by (simp add: sendMessage_def client_sendMessage_def Let_def disconnect_def
      attempted_def transmitted_def)

theorem sendMessage_never_raises_witness:
  "fst (sendMessage \<lparr>ok = False, dropped = False\<rparr> ''!a'' ''m1'' new_adapter) = Inr ()
   \<and> \<not> connected new_adapter
   \<and> outgoingQueue (snd (sendMessage \<lparr>ok = False, dropped = False\<rparr> ''!a'' ''m1'' new_adapter))
       = [(''!a'', ''m1'')]
   \<and> connected (new_adapter\<lparr>connected := True\<rparr>)
   \<and> \<not> ok \<lparr>ok = False, dropped = False\<rparr>
   \<and> outgoingQueue (snd (sendMessage \<lparr>ok = False, dropped = False\<rparr> ''!a'' ''m1''
        (new_adapter\<lparr>connected := True\<rparr>))) = [(''!a'', ''m1'')]"
  using sendMessage_never_raises [of "\<lparr>ok = False, dropped = False\<rparr>" "''!a''" "''m1''" new_adapter]
    sendMessage_never_raises [of "\<lparr>ok = False, dropped = False\<rparr>" "''!a''" "''m1''"
      "new_adapter\<lparr>connected := True\<rparr>"]
  by (simp add: new_adapter_def)

section \<open>Properties of the flush loop\<close>

lemma flush_body_Cons:
  "outgoingQueue s = m # q \<Longrightarrow> connected s \<Longrightarrow>
   flush_body r s =
     s\<lparr>outgoingQueue := (if ok r then q else q @ [m]),
       wire := wire s @ [(m, ok r)],
       connected := \<not> dropped r\<rparr>"
  by (cases m) (simp add: flush_body_def sendMessage_def client_sendMessage_def Let_def disconnect_def)

lemma flush_guard_Cons:
  "flush_guard s \<Longrightarrow> \<exists>m q. outgoingQueue s = m # q \<and> connected s"
  by (cases "outgoingQueue s") (simp_all add: flush_guard_def)

lemma flush_progress_exited: "\<not> flush_guard s \<Longrightarrow> flush_progress rs s = s"
  by (cases rs) simp_all

lemma flush_progress_append:
  "flush_progress (xs @ ys) s = flush_progress ys (flush_progress xs s)"
  by (induction xs arbitrary: s) (simp_all add: flush_progress_exited)

lemma flushOutgoingQueue_progress:
  "flushOutgoingQueue rs s =
     (if flush_guard (flush_progress rs s) then None else Some (flush_progress rs s))"
  by (induction rs arbitrary: s) simp_all

lemma flushOutgoingQueue_exit:
  "flushOutgoingQueue rs s = Some s' \<Longrightarrow>
   s' = flush_progress rs s \<and> (outgoingQueue s' = [] \<or> \<not> connected s')"
  by (auto simp: flushOutgoingQueue_progress flush_guard_def split: if_splits)

lemma flush_progress_worklist:
  "\<exists>w. wire (flush_progress rs s) = wire s @ w
      \<and> map fst w @ outgoingQueue (flush_progress rs s)
          = outgoingQueue s @ map fst (filter (\<lambda>e. \<not> snd e) w)"
proof (induction rs arbitrary: s)
  case Nil
  have "wire s = wire s @ [] \<and> map fst [] @ outgoingQueue s
      = outgoingQueue s @ map fst (filter (\<lambda>e. \<not> snd e) [])" by simp
  then show ?case unfolding flush_progress.simps by blast
next
  case (Cons r rs)
  show ?case
  proof (cases "flush_guard s")
    case False
    have "wire s = wire s @ [] \<and> map fst [] @ outgoingQueue s
        = outgoingQueue s @ map fst (filter (\<lambda>e. \<not> snd e) [])" by simp
    then show ?thesis using False unfolding flush_progress.simps by (simp only: if_False) blast
  next
    case True
    then obtain m q where q: "outgoingQueue s = m # q" and c: "connected s"
      using flush_guard_Cons by blast
    let ?s1 = "flush_body r s"
    have s1: "wire ?s1 = wire s @ [(m, ok r)]"
      "outgoingQueue ?s1 = (if ok r then q else q @ [m])"
      by (simp_all add: flush_body_Cons [OF q c])
    from Cons.IH [of ?s1] obtain w where
      w: "wire (flush_progress rs ?s1) = wire ?s1 @ w"
         "map fst w @ outgoingQueue (flush_progress rs ?s1)
            = outgoingQueue ?s1 @ map fst (filter (\<lambda>e. \<not> snd e) w)"
      by blast
    have "wire (flush_progress (r # rs) s) = wire s @ ((m, ok r) # w)"
      using True w(1) s1(1) by simp
    moreover have "map fst ((m, ok r) # w) @ outgoingQueue (flush_progress (r # rs) s)
        = outgoingQueue s @ map fst (filter (\<lambda>e. \<not> snd e) ((m, ok r) # w))"
      using True w(2) s1(2) q by simp
    ultimately show ?thesis by blast
  qed
qed

lemma flush_progress_all_rejected:
  "connected s \<Longrightarrow> outgoingQueue s \<noteq> [] \<Longrightarrow>
   flush_guard (flush_progress (replicate n rejects) s)"
proof (induction n arbitrary: s)
  case 0
  then show ?case by (simp add: flush_guard_def)
next
  case (Suc n)
  then obtain m q where q: "outgoingQueue s = m # q" by (cases "outgoingQueue s") auto
  have g: "flush_guard s" using Suc.prems by (simp add: flush_guard_def)
  have "connected (flush_body rejects s)" "outgoingQueue (flush_body rejects s) \<noteq> []"
    using Suc.prems(1) by (simp_all add: flush_body_Cons [OF q] rejects_def)
  then have "flush_guard (flush_progress (replicate n rejects) (flush_body rejects s))"
    by (rule Suc.IH)
  then show ?case using g by simp
qed

lemma flush_progress_singleton:
  "outgoingQueue s = [m] \<or> outgoingQueue s = [] \<Longrightarrow>
   outgoingQueue (flush_progress rs s) = [m] \<or> outgoingQueue (flush_progress rs s) = []"
proof (induction rs arbitrary: s)
  case Nil
  then show ?case by simp
next
  case (Cons r rs)
  show ?case
  proof (cases "flush_guard s")
    case False
    with Cons.prems show ?thesis by simp
  next
    case True
    then have q: "outgoingQueue s = [m]" and c: "connected s"
      using Cons.prems by (auto simp: flush_guard_def)
    have "outgoingQueue (flush_body r s) = [m] \<or> outgoingQueue (flush_body r s) = []"
      by (simp add: flush_body_Cons [OF q c])
    from Cons.IH [OF this] True show ?thesis by simp
  qed
qed

text \<open>
  C2, as the code has it. The queue is \<open>[(A, m1), (B, m2)]\<close> and the adapter is
  connected; the call for \<open>m1\<close> fails and the call for \<open>m2\<close> succeeds. After these two
  calls the queue is exactly \<open>[(A, m1)]\<close>, with one call made for each message. The loop
  has not exited there: its guard holds, and it goes on to retry \<open>m1\<close> in the same flush.
  It never exits while the retries fail and the adapter stays connected, and it exits
  with the empty queue when the retry succeeds, \<open>m1\<close> going out after \<open>m2\<close>. Whatever the
  answers after the first two calls, the loop exits either with the empty queue or with
  \<open>[(A, m1)]\<close> and the adapter no longer connected. Both ways of the latter happen: a
  disconnect during the call for \<open>m2\<close>, and a disconnect during a failed retry of \<open>m1\<close>.
\<close>

theorem flush_retries_failed_message:
  assumes "connected s" and "outgoingQueue s = [(A, m1), (B, m2)]"
  shows "outgoingQueue (flush_progress [rejects, resolves] s) = [(A, m1)]
    \<and> wire (flush_progress [rejects, resolves] s) = wire s @ [((A, m1), False), ((B, m2), True)]
    \<and> flushOutgoingQueue ([rejects, resolves] @ replicate n rejects) s = None
    \<and> (\<exists>s'. flushOutgoingQueue [rejects, resolves, resolves] s = Some s'
          \<and> outgoingQueue s' = []
          \<and> transmitted s' = transmitted s @ [(B, m2), (A, m1)])
    \<and> (\<forall>r2 rs s'. ok r2 \<and> flushOutgoingQueue (rejects # r2 # rs) s = Some s' \<longrightarrow>
          outgoingQueue s' = [] \<or> (outgoingQueue s' = [(A, m1)] \<and> \<not> connected s'))
    \<and> (\<exists>s'. flushOutgoingQueue [rejects, resolves_dropped] s = Some s'
          \<and> outgoingQueue s' = [(A, m1)] \<and> \<not> connected s'
          \<and> transmitted s' = transmitted s @ [(B, m2)])
    \<and> (\<exists>s'. flushOutgoingQueue [rejects, resolves, rejects_dropped] s = Some s'
          \<and> outgoingQueue s' = [(A, m1)] \<and> \<not> connected s'
          \<and> transmitted s' = transmitted s @ [(B, m2)])"
proof -
  let ?s2 = "flush_progress [rejects, resolves] s"
  have s2: "outgoingQueue ?s2 = [(A, m1)]" "connected ?s2"
    "wire ?s2 = wire s @ [((A, m1), False), ((B, m2), True)]"
    using assms
    by (simp_all add: flush_guard_def flush_body_def sendMessage_def client_sendMessage_def
        Let_def disconnect_def rejects_def resolves_def)
  have "flush_guard (flush_progress (replicate n rejects) ?s2)"
    using s2 by (intro flush_progress_all_rejected) simp_all
  then have loop: "flushOutgoingQueue ([rejects, resolves] @ replicate n rejects) s = None"
    by (simp only: flushOutgoingQueue_progress flush_progress_append if_True)
  have retry: "\<exists>s'. flushOutgoingQueue [rejects, resolves, resolves] s = Some s'
          \<and> outgoingQueue s' = []
          \<and> transmitted s' = transmitted s @ [(B, m2), (A, m1)]"
    using assms
    by (simp add: flush_guard_def flush_body_def sendMessage_def client_sendMessage_def
        Let_def disconnect_def rejects_def resolves_def transmitted_def)
  have drop2: "\<exists>s'. flushOutgoingQueue [rejects, resolves_dropped] s = Some s'
          \<and> outgoingQueue s' = [(A, m1)] \<and> \<not> connected s'
          \<and> transmitted s' = transmitted s @ [(B, m2)]"
    using assms
    by (simp add: flush_guard_def flush_body_def sendMessage_def client_sendMessage_def
        Let_def disconnect_def rejects_def resolves_dropped_def transmitted_def)
  have drop3: "\<exists>s'. flushOutgoingQueue [rejects, resolves, rejects_dropped] s = Some s'
          \<and> outgoingQueue s' = [(A, m1)] \<and> \<not> connected s'
          \<and> transmitted s' = transmitted s @ [(B, m2)]"
    using assms
    by (simp add: flush_guard_def flush_body_def sendMessage_def client_sendMessage_def
        Let_def disconnect_def rejects_def resolves_def rejects_dropped_def transmitted_def)
  have only: "\<forall>r2 rs s'. ok r2 \<and> flushOutgoingQueue (rejects # r2 # rs) s = Some s' \<longrightarrow>
          outgoingQueue s' = [] \<or> (outgoingQueue s' = [(A, m1)] \<and> \<not> connected s')"
  proof (intro allI impI)
    fix r2 rs s'
    assume a: "ok r2 \<and> flushOutgoingQueue (rejects # r2 # rs) s = Some s'"
    let ?t = "flush_progress [rejects, r2] s"
    have t: "outgoingQueue ?t = [(A, m1)]"
      using assms a
      by (simp add: flush_guard_def flush_body_def sendMessage_def client_sendMessage_def
          Let_def disconnect_def rejects_def)
    from a have f: "flushOutgoingQueue (rejects # r2 # rs) s = Some s'" by blast
    from flushOutgoingQueue_exit [OF f]
    have e0: "s' = flush_progress (rejects # r2 # rs) s"
      and x: "outgoingQueue s' = [] \<or> \<not> connected s'" by blast+
    have "rejects # r2 # rs = [rejects, r2] @ rs" by simp
    with e0 have e: "s' = flush_progress ([rejects, r2] @ rs) s" by (simp only:)
    from e have "s' = flush_progress rs ?t" by (simp only: flush_progress_append)
    with flush_progress_singleton [of ?t "(A, m1)" rs] t
    have "outgoingQueue s' = [(A, m1)] \<or> outgoingQueue s' = []" by simp
    with x show "outgoingQueue s' = [] \<or> (outgoingQueue s' = [(A, m1)] \<and> \<not> connected s')"
      by blast
  qed
  from s2(1) s2(3) loop retry only drop2 drop3 show ?thesis by blast
qed

theorem flush_retries_failed_message_witness:
  "connected (new_adapter\<lparr>connected := True, outgoingQueue := [(''!A'', ''m1''), (''!B'', ''m2'')]\<rparr>)
   \<and> outgoingQueue (flush_progress [rejects, resolves]
        (new_adapter\<lparr>connected := True, outgoingQueue := [(''!A'', ''m1''), (''!B'', ''m2'')]\<rparr>))
      = [(''!A'', ''m1'')]
   \<and> flushOutgoingQueue ([rejects, resolves] @ replicate 5 rejects)
        (new_adapter\<lparr>connected := True, outgoingQueue := [(''!A'', ''m1''), (''!B'', ''m2'')]\<rparr>)
      = None"
  using flush_retries_failed_message
    [of "new_adapter\<lparr>connected := True, outgoingQueue := [(''!A'', ''m1''), (''!B'', ''m2'')]\<rparr>"
      "''!A''" "''m1''" "''!B''" "''m2''" 5]
  by (simp add: new_adapter_def)

text \<open>
  C2 as stated fails on the code: after the failed call for \<open>m1\<close> and the successful call
  for \<open>m2\<close> the flush has not completed. It is still running after a failed retry, and
  when the retry succeeds it completes with an empty queue, not with \<open>[(A, m1)]\<close>.
\<close>

theorem flush_does_not_complete_counterexample:
  "flushOutgoingQueue [\<lparr>ok = False, dropped = False\<rparr>, \<lparr>ok = True, dropped = False\<rparr>]
     \<lparr>connected = True, userId = ''@bot:hs'',
       outgoingQueue = [(''!A'', ''m1''), (''!B'', ''m2'')], client = None, wire = []\<rparr>
   = None
   \<and> flushOutgoingQueue [\<lparr>ok = False, dropped = False\<rparr>, \<lparr>ok = True, dropped = False\<rparr>,
       \<lparr>ok = False, dropped = False\<rparr>]
     \<lparr>connected = True, userId = ''@bot:hs'',
       outgoingQueue = [(''!A'', ''m1''), (''!B'', ''m2'')], client = None, wire = []\<rparr>
   = None
   \<and> flushOutgoingQueue [\<lparr>ok = False, dropped = False\<rparr>, \<lparr>ok = True, dropped = False\<rparr>,
       \<lparr>ok = True, dropped = False\<rparr>]
     \<lparr>connected = True, userId = ''@bot:hs'',
       outgoingQueue = [(''!A'', ''m1''), (''!B'', ''m2'')], client = None, wire = []\<rparr>
   = Some \<lparr>connected = True, userId = ''@bot:hs'', outgoingQueue = [], client = None,
       wire = [((''!A'', ''m1''), False), ((''!B'', ''m2''), True), ((''!A'', ''m1''), True)]\<rparr>"
  by (simp add: flush_guard_def flush_body_def sendMessage_def client_sendMessage_def
      Let_def disconnect_def)





text \<open>
  C9, as the code has it. A flush is running (it has not exited after the answers \<open>pre\<close>)
  and \<^verbatim>\<open>disconnect()\<close> runs during its next transport call. Then the loop exits at its
  next guard, whatever answers would follow, and the item popped for that turn is not
  lost: when its call failed it is back in the queue, at the tail, and when its call
  succeeded it has been transmitted and is not in the queue again.
\<close>

theorem flush_stops_on_disconnect:
  assumes "flushOutgoingQueue pre s = None" and "dropped r"
  shows "\<exists>s' item q. outgoingQueue (flush_progress pre s) = item # q
      \<and> flushOutgoingQueue (pre @ r # rest) s = Some s'
      \<and> \<not> connected s'
      \<and> (if ok r
          then outgoingQueue s' = q \<and> transmitted s' = transmitted (flush_progress pre s) @ [item]
          else outgoingQueue s' = q @ [item] \<and> transmitted s' = transmitted (flush_progress pre s))"
proof -
  let ?s1 = "flush_progress pre s"
  from assms(1) have g: "flush_guard ?s1"
    by (simp add: flushOutgoingQueue_progress split: if_splits)
  then obtain item q where q: "outgoingQueue ?s1 = item # q" and c: "connected ?s1"
    using flush_guard_Cons by blast
  let ?s2 = "flush_body r ?s1"
  have s2: "?s2 = ?s1\<lparr>outgoingQueue := (if ok r then q else q @ [item]),
       wire := wire ?s1 @ [(item, ok r)], connected := False\<rparr>"
    using assms(2) by (simp add: flush_body_Cons [OF q c])
  then have ng: "\<not> flush_guard ?s2" by (simp add: flush_guard_def)
  have "flush_progress (pre @ r # rest) s = ?s2"
    using g ng by (simp add: flush_progress_append flush_progress_exited)
  then have "flushOutgoingQueue (pre @ r # rest) s = Some ?s2"
    using ng by (simp add: flushOutgoingQueue_progress)
  moreover have "\<not> connected ?s2" using s2 by simp
  moreover have "if ok r
      then outgoingQueue ?s2 = q \<and> transmitted ?s2 = transmitted ?s1 @ [item]
      else outgoingQueue ?s2 = q @ [item] \<and> transmitted ?s2 = transmitted ?s1"
    by (simp add: s2 transmitted_def)
  ultimately show ?thesis using q by blast
qed

theorem flush_stops_on_disconnect_witness:
  "flushOutgoingQueue [rejects]
      (new_adapter\<lparr>connected := True, outgoingQueue := [(''!A'', ''m1''), (''!B'', ''m2'')]\<rparr>) = None
   \<and> dropped rejects_dropped
   \<and> (\<exists>s'. flushOutgoingQueue ([rejects] @ rejects_dropped # [resolves])
          (new_adapter\<lparr>connected := True, outgoingQueue := [(''!A'', ''m1''), (''!B'', ''m2'')]\<rparr>)
          = Some s'
        \<and> \<not> connected s'
        \<and> outgoingQueue s' = [(''!A'', ''m1''), (''!B'', ''m2'')])"
  using flush_stops_on_disconnect [of "[rejects]"
      "new_adapter\<lparr>connected := True, outgoingQueue := [(''!A'', ''m1''), (''!B'', ''m2'')]\<rparr>"
      rejects_dropped "[resolves]"]
  by (simp add: new_adapter_def rejects_def rejects_dropped_def resolves_def
      flush_guard_def flush_body_def sendMessage_def client_sendMessage_def Let_def
      disconnect_def)

text \<open>
  C9 as stated fails on the code: the connection is dropped during the call for the only
  queued message and the call still succeeds. The loop exits, and the popped item is
  not back in the queue, which is empty; it has been transmitted.
\<close>

theorem popped_item_not_requeued_counterexample:
  "flushOutgoingQueue [\<lparr>ok = True, dropped = True\<rparr>]
     \<lparr>connected = True, userId = ''@bot:hs'', outgoingQueue = [(''!A'', ''m1'')],
       client = None, wire = []\<rparr>
   = Some \<lparr>connected = False, userId = ''@bot:hs'', outgoingQueue = [], client = None,
       wire = [((''!A'', ''m1''), True)]\<rparr>"
  by (simp add: flush_guard_def flush_body_def sendMessage_def client_sendMessage_def
      Let_def disconnect_def)

section \<open>Properties of overlapping tasks\<close>

text \<open>
  The functions for a task that runs alone agree with the events: a call of
  \<^verbatim>\<open>sendMessage\<close>, one turn of a flush loop, and a whole flush that uses every answer.
\<close>

lemma sendMessage_as_events:
  assumes "pending sys = []"
  shows "chan (run ([Send jid t] @ (if dropped r then [Disconnect] else []) @ [Settle 0 (ok r)]) sys)
     = snd (sendMessage r jid t (chan sys))"
  using assms
  by (cases "connected (chan sys)"; cases "ok r"; cases "dropped r")
    (simp_all add: begin_sendMessage_def settle_def sendMessage_def client_sendMessage_def
      Let_def disconnect_def)

lemma flush_turn_as_events:
  assumes "flush_guard (chan sys)" and "pending sys = []" and "resuming sys = 0"
  shows "\<exists>sys1. run (answer_events r) (loop_turn sys) = loop_turn sys1
      \<and> chan sys1 = flush_body r (chan sys) \<and> pending sys1 = [] \<and> resuming sys1 = 0"
proof -
  from assms(1) obtain m q where q: "outgoingQueue (chan sys) = m # q" and c: "connected (chan sys)"
    by (cases "outgoingQueue (chan sys)") (auto simp: flush_guard_def)
  obtain ch st where sys: "sys = \<lparr>chan = ch, pending = [], started = st, resuming = 0\<rparr>"
    using assms(2,3) by (cases sys) simp
  have ch: "outgoingQueue ch = m # q" "connected ch" using q c by (simp_all add: sys)
  let ?c1 = "ch\<lparr>outgoingQueue := (if ok r then q else q @ [m]),
       wire := wire ch @ [(m, ok r)], connected := \<not> dropped r\<rparr>"
  let ?sys1 = "\<lparr>chan = ?c1, pending = [], started = st @ [(m, Loop)], resuming = 0\<rparr>"
  have b: "flush_body r ch = ?c1"
    using ch
    by (cases m) (simp add: flush_body_def sendMessage_def client_sendMessage_def Let_def disconnect_def)
  have lt: "loop_turn sys =
      \<lparr>chan = ch\<lparr>outgoingQueue := q\<rparr>, pending = [(m, Loop)],
       started = st @ [(m, Loop)], resuming = 0\<rparr>"
    using ch by (simp add: sys loop_turn_def begin_sendMessage_def flush_guard_def)
  have "run (answer_events r)
      \<lparr>chan = ch\<lparr>outgoingQueue := q\<rparr>, pending = [(m, Loop)],
       started = st @ [(m, Loop)], resuming = 0\<rparr> = loop_turn ?sys1"
    using ch
    by (cases "ok r"; cases "dropped r"; cases ch)
      (simp_all add: answer_events_def settle_def Let_def disconnect_def)
  with lt have "run (answer_events r) (loop_turn sys) = loop_turn ?sys1" by simp
  moreover have "chan ?sys1 = flush_body r (chan sys)" by (simp add: b sys)
  moreover have "pending ?sys1 = []" "resuming ?sys1 = 0" by simp_all
  ultimately show ?thesis by blast
qed

lemma flush_alone_as_events:
  assumes "pending sys = []" and "resuming sys = 0"
    and "flushOutgoingQueue rs (chan sys) = Some s'"
    and "rs \<noteq> [] \<longrightarrow> flushOutgoingQueue (butlast rs) (chan sys) = None"
  shows "chan (run (concat (map answer_events rs)) (loop_turn sys)) = s'"
  using assms
proof (induction rs arbitrary: sys)
  case Nil
  then have "\<not> flush_guard (chan sys)" by (simp split: if_splits)
  then have "loop_turn sys = sys" by (simp add: loop_turn_def)
  with Nil show ?case by (simp split: if_splits)
next
  case (Cons r rs)
  have g: "flush_guard (chan sys)"
  proof (rule ccontr)
    assume "\<not> flush_guard (chan sys)"
    then have "flushOutgoingQueue (butlast (r # rs)) (chan sys) = Some (chan sys)"
      by (cases rs) simp_all
    with Cons.prems(4) show False by simp
  qed
  from flush_turn_as_events [OF g Cons.prems(1,2), of r] obtain sys1 where
    1: "run (answer_events r) (loop_turn sys) = loop_turn sys1"
       "chan sys1 = flush_body r (chan sys)" "pending sys1 = []" "resuming sys1 = 0"
    by blast
  have some: "flushOutgoingQueue rs (chan sys1) = Some s'"
    using Cons.prems(3) g 1(2) by simp
  have none: "rs \<noteq> [] \<longrightarrow> flushOutgoingQueue (butlast rs) (chan sys1) = None"
    using Cons.prems(4) g 1(2) by (cases rs) simp_all
  have run_append: "\<And>xs ys z. run (xs @ ys) z = run ys (run xs z)"
  proof -
    fix xs ys z show "run (xs @ ys) z = run ys (run xs z)"
      by (induction xs arbitrary: z) simp_all
  qed
  have "run (concat (map answer_events (r # rs))) (loop_turn sys)
      = run (concat (map answer_events rs)) (loop_turn sys1)"
    by (simp add: run_append 1(1))
  with Cons.IH [OF 1(3) 1(4) some none] show ?case by simp
qed

lemma popped_begin_Plain:
  "popped (begin_sendMessage Plain jid t sys) = popped sys"
  by (simp add: begin_sendMessage_def popped_def)














text \<open>
  Two flush loops that overlap, with no failed call: the first loop awaits the call for
  \<open>m1\<close> when a disconnect and a second sync signal come; the second loop sends \<open>m2\<close> and
  \<open>m3\<close>, and the call for \<open>m1\<close> resolves last. The calls were started in queue order.
\<close>

lemma overlapping_flushes_reorder:
  "transmitted (chan (run
      [Sync, Disconnect, Sync, Settle 1 True, Resume, Settle 1 True, Resume, Settle 0 True, Resume]
      (idle (new_adapter\<lparr>outgoingQueue := [(''!A'', ''m1''), (''!A'', ''m2''), (''!B'', ''m3'')]\<rparr>))))
   = [(''!A'', ''m2''), (''!B'', ''m3''), (''!A'', ''m1'')]
   \<and> popped (run
      [Sync, Disconnect, Sync, Settle 1 True, Resume, Settle 1 True, Resume, Settle 0 True, Resume]
      (idle (new_adapter\<lparr>outgoingQueue := [(''!A'', ''m1''), (''!A'', ''m2''), (''!B'', ''m3'')]\<rparr>)))
   = [(''!A'', ''m1''), (''!A'', ''m2''), (''!B'', ''m3'')]"
  by (simp add: idle_def new_adapter_def loop_turn_def begin_sendMessage_def settle_def
        sync_prepared_def disconnect_def flush_guard_def transmitted_def Let_def popped_def)

section \<open>Properties of the inbound handler\<close>

lemma on_timeline_None: "on_timeline N fmt rg s e None = (Inr (), [])"
  by (simp add: on_timeline_def)

lemma on_timeline_discard:
  "ev_type e \<noteq> ''m.room.message'' \<or> ev_sender e = Some (userId s) \<or> \<not> connected s \<Longrightarrow>
   on_timeline N fmt rg s e rm = (Inr (), [])"
  by (cases rm) (auto simp: on_timeline_def)

lemma on_timeline_invalid_date:
  assumes "ev_type e = ''m.room.message''" and "ev_sender e \<noteq> Some (userId s)"
    and "connected s" and "toISOString fmt (ev_ts e) = Inl err"
  shows "on_timeline N fmt rg s e (Some rm) = (Inl err, [])"
  using assms by (simp add: on_timeline_def Let_def)

lemma on_timeline_valid_date:
  assumes "ev_type e = ''m.room.message''" and "ev_sender e \<noteq> Some (userId s)"
    and "connected s" and "toISOString fmt (ev_ts e) = Inr ts"
  shows "on_timeline N fmt rg s e (Some rm) =
     (if lookup_truthy (rg ()) (roomId rm) then
        (case body_or_empty (ev_body e) of
           JStr b \<Rightarrow>
             (Inr (),
              [OnChatMetadata (roomId rm) ts (or_else (room_name rm) (roomId rm)),
               OnMessage (roomId rm)
                 \<lparr>msg_id = opt_or (ev_id e) [],
                  chat_jid = roomId rm,
                  sender = opt_or (ev_sender e) [],
                  sender_name = opt_or (members rm (opt_or (ev_sender e) []))
                                  (opt_or (ev_sender e) ''unknown''),
                  content = b,
                  timestamp = ts,
                  is_from_me = False,
                  is_bot_message = startsWith b (N @ '':'')\<rparr>])
         | _ \<Rightarrow> (Inl TypeError, [OnChatMetadata (roomId rm) ts (or_else (room_name rm) (roomId rm))]))
      else (Inr (), [OnChatMetadata (roomId rm) ts (or_else (room_name rm) (roomId rm))]))"
  using assms by (simp add: on_timeline_def Let_def)

lemma on_timeline_message:
  assumes "OnMessage jid m \<in> set (snd (on_timeline N fmt rg s e rm))"
  shows "body_or_empty (ev_body e) = JStr (content m)
    \<and> is_bot_message m = startsWith (content m) (N @ '':'')
    \<and> \<not> is_from_me m"
proof -
  from assms obtain r where rm: "rm = Some r" by (cases rm) (auto simp: on_timeline_None)
  have 1: "ev_type e = ''m.room.message''" "ev_sender e \<noteq> Some (userId s)" "connected s"
  proof -
    have "\<not> (ev_type e \<noteq> ''m.room.message'' \<or> ev_sender e = Some (userId s) \<or> \<not> connected s)"
    proof
      assume "ev_type e \<noteq> ''m.room.message'' \<or> ev_sender e = Some (userId s) \<or> \<not> connected s"
      from on_timeline_discard [OF this, of N fmt rg rm] assms show False by simp
    qed
    then show "ev_type e = ''m.room.message''" "ev_sender e \<noteq> Some (userId s)" "connected s"
      by blast+
  qed
  from assms obtain ts where 2: "toISOString fmt (ev_ts e) = Inr ts"
    using 1 by (cases "toISOString fmt (ev_ts e)") (auto simp: rm on_timeline_invalid_date)
  from assms show ?thesis
    unfolding rm on_timeline_valid_date [OF 1 2]
    by (auto split: if_splits json.splits)
qed

lemma startsWith_iff: "startsWith s p \<longleftrightarrow> (\<exists>rest. s = p @ rest)"
  unfolding startsWith_def
proof
  assume "take (length p) s = p"
  then have "s = p @ drop (length p) s" by (metis append_take_drop_id)
  then show "\<exists>rest. s = p @ rest" ..
next
  assume "\<exists>rest. s = p @ rest"
  then show "take (length p) s = p" by auto
qed


lemma ownsJid_not_inherited: "ownsJid k \<Longrightarrow> k \<notin> set Object_prototype_keys"
  by (auto simp: ownsJid_def startsWith_def Object_prototype_keys_def)

text \<open>
  C5. An event whose sender is the adapter's own user id, or that arrives while the
  adapter is not connected, makes the handler call neither callback.
\<close>

theorem discarded_events_fire_no_callback:
  "ev_sender e = Some (userId s) \<or> \<not> connected s \<Longrightarrow>
   on_timeline N fmt rg s e rm = (Inr (), [])"
  by (cases rm) (auto simp: on_timeline_def)

theorem discarded_events_fire_no_callback_witness:
  "ev_sender \<lparr>ev_type = ''m.room.message'', ev_sender = Some ''@bot:hs'',
         ev_body = Some (JStr ''hi''), ev_ts = Some 1700000000000, ev_id = Some ''$e1''\<rparr>
     = Some (userId \<lparr>connected = True, userId = ''@bot:hs'', outgoingQueue = [], client = None, wire = []\<rparr>)
   \<and> on_timeline ''Andy'' (\<lambda>t. ''2023-11-14T22:13:20.000Z'') (\<lambda>u. [''!r:hs'' \<mapsto> ()])
       \<lparr>connected = True, userId = ''@bot:hs'', outgoingQueue = [], client = None, wire = []\<rparr>
       \<lparr>ev_type = ''m.room.message'', ev_sender = Some ''@bot:hs'',
         ev_body = Some (JStr ''hi''), ev_ts = Some 1700000000000, ev_id = Some ''$e1''\<rparr>
       (Some \<lparr>roomId = ''!r:hs'', room_name = ''Room'', members = Map.empty\<rparr>) = (Inr (), [])
   \<and> \<not> connected new_adapter
   \<and> on_timeline ''Andy'' (\<lambda>t. ''2023-11-14T22:13:20.000Z'') (\<lambda>u. [''!r:hs'' \<mapsto> ()])
       new_adapter
       \<lparr>ev_type = ''m.room.message'', ev_sender = Some ''@alice:hs'',
         ev_body = Some (JStr ''hi''), ev_ts = Some 1700000000000, ev_id = Some ''$e1''\<rparr>
       (Some \<lparr>roomId = ''!r:hs'', room_name = ''Room'', members = Map.empty\<rparr>) = (Inr (), [])"
  using discarded_events_fire_no_callback
    [of "\<lparr>ev_type = ''m.room.message'', ev_sender = Some ''@bot:hs'',
         ev_body = Some (JStr ''hi''), ev_ts = Some 1700000000000, ev_id = Some ''$e1''\<rparr>"
      "\<lparr>connected = True, userId = ''@bot:hs'', outgoingQueue = [], client = None, wire = []\<rparr>"
      "''Andy''" "\<lambda>t. ''2023-11-14T22:13:20.000Z''" "\<lambda>u. [''!r:hs'' \<mapsto> ()]"
      "Some \<lparr>roomId = ''!r:hs'', room_name = ''Room'', members = Map.empty\<rparr>"]
    discarded_events_fire_no_callback
    [of "\<lparr>ev_type = ''m.room.message'', ev_sender = Some ''@alice:hs'',
         ev_body = Some (JStr ''hi''), ev_ts = Some 1700000000000, ev_id = Some ''$e1''\<rparr>"
      new_adapter
      "''Andy''" "\<lambda>t. ''2023-11-14T22:13:20.000Z''" "\<lambda>u. [''!r:hs'' \<mapsto> ()]"
      "Some \<lparr>roomId = ''!r:hs'', room_name = ''Room'', members = Map.empty\<rparr>"]
  by (simp add: new_adapter_def)




text \<open>
  C7. Every message the handler passes to the full-message callback carries the body of
  the event as its content, and its \<open>is_bot_message\<close> is true exactly when that content
  starts with the assistant name followed by a colon. So the content
  \<open>ASSISTANT_NAME @ '': hello''\<close> gives true and the content \<open>''hello''\<close> gives false, for
  every assistant name.
\<close>

theorem is_bot_message_iff_prefixed:
  assumes "OnMessage jid m \<in> set (snd (on_timeline N fmt rg s e rm))"
  shows "body_or_empty (ev_body e) = JStr (content m)
    \<and> (is_bot_message m \<longleftrightarrow> (\<exists>rest. content m = N @ '':'' @ rest))
    \<and> (content m = N @ '': hello'' \<longrightarrow> is_bot_message m)
    \<and> (content m = ''hello'' \<longrightarrow> \<not> is_bot_message m)"
proof -
  from on_timeline_message [OF assms]
  have c: "body_or_empty (ev_body e) = JStr (content m)"
    and b: "is_bot_message m = startsWith (content m) (N @ '':'')"
    by simp_all
  have iff: "is_bot_message m \<longleftrightarrow> (\<exists>rest. content m = N @ '':'' @ rest)"
    by (simp add: b startsWith_iff)
  have hello: "content m = N @ '': hello'' \<longrightarrow> is_bot_message m"
    by (simp add: iff)
  have "\<not> (\<exists>rest. ''hello'' = N @ '':'' @ rest)"
  proof
    assume "\<exists>rest. ''hello'' = N @ '':'' @ rest"
    then obtain rest where "''hello'' = N @ '':'' @ rest" ..
    then have "set ''hello'' = set (N @ '':'' @ rest)" by simp
    then have "CHR '':'' \<in> set ''hello''" by simp
    then show False by simp
  qed
  then have "content m = ''hello'' \<longrightarrow> \<not> is_bot_message m"
    by (simp add: iff)
  with c iff hello show ?thesis by blast
qed

theorem is_bot_message_iff_prefixed_witness:
  "OnMessage ''!r:hs''
      \<lparr>msg_id = ''$e1'', chat_jid = ''!r:hs'', sender = ''@alice:hs'',
       sender_name = ''Alice'', content = ''Andy: hello'',
       timestamp = ''2023-11-14T22:13:20.000Z'', is_from_me = False, is_bot_message = True\<rparr>
     \<in> set (snd (on_timeline ''Andy'' (\<lambda>t. ''2023-11-14T22:13:20.000Z'') (\<lambda>u. [''!r:hs'' \<mapsto> ()])
       \<lparr>connected = True, userId = ''@bot:hs'', outgoingQueue = [], client = None, wire = []\<rparr>
       \<lparr>ev_type = ''m.room.message'', ev_sender = Some ''@alice:hs'',
         ev_body = Some (JStr ''Andy: hello''), ev_ts = Some 1700000000000, ev_id = Some ''$e1''\<rparr>
       (Some \<lparr>roomId = ''!r:hs'', room_name = ''Room'', members = [''@alice:hs'' \<mapsto> ''Alice'']\<rparr>)))
   \<and> is_bot_message
      \<lparr>msg_id = ''$e1'', chat_jid = ''!r:hs'', sender = ''@alice:hs'',
       sender_name = ''Alice'', content = ''Andy: hello'',
       timestamp = ''2023-11-14T22:13:20.000Z'', is_from_me = False, is_bot_message = True\<rparr>
   \<and> (\<exists>rest. ''Andy: hello'' = ''Andy'' @ '':'' @ rest)"
  using is_bot_message_iff_prefixed
    [of "''!r:hs''"
      "\<lparr>msg_id = ''$e1'', chat_jid = ''!r:hs'', sender = ''@alice:hs'',
       sender_name = ''Alice'', content = ''Andy: hello'',
       timestamp = ''2023-11-14T22:13:20.000Z'', is_from_me = False, is_bot_message = True\<rparr>"
      "''Andy''" "\<lambda>t. ''2023-11-14T22:13:20.000Z''" "\<lambda>u. [''!r:hs'' \<mapsto> ()]"
      "\<lparr>connected = True, userId = ''@bot:hs'', outgoingQueue = [], client = None, wire = []\<rparr>"
      "\<lparr>ev_type = ''m.room.message'', ev_sender = Some ''@alice:hs'',
         ev_body = Some (JStr ''Andy: hello''), ev_ts = Some 1700000000000, ev_id = Some ''$e1''\<rparr>"
      "Some \<lparr>roomId = ''!r:hs'', room_name = ''Room'', members = [''@alice:hs'' \<mapsto> ''Alice'']\<rparr>"]
  by (simp add: on_timeline_def Let_def or_else_def opt_or_def startsWith_def toISOString_def
      max_time_value_def body_or_empty_def lookup_truthy_def Object_prototype_keys_def)

text \<open>
  C10. Every message the handler passes to the full-message callback has \<open>is_from_me\<close>
  false.
\<close>

theorem forwarded_message_not_from_me:
  "OnMessage jid m \<in> set (snd (on_timeline N fmt rg s e rm)) \<Longrightarrow> \<not> is_from_me m"
  using on_timeline_message by blast

theorem forwarded_message_not_from_me_witness:
  "OnMessage ''!r:hs''
      \<lparr>msg_id = ''$e1'', chat_jid = ''!r:hs'', sender = ''@alice:hs'',
       sender_name = ''Alice'', content = ''hello'',
       timestamp = ''2023-11-14T22:13:20.000Z'', is_from_me = False, is_bot_message = False\<rparr>
     \<in> set (snd (on_timeline ''Andy'' (\<lambda>t. ''2023-11-14T22:13:20.000Z'') (\<lambda>u. [''!r:hs'' \<mapsto> ()])
       \<lparr>connected = True, userId = ''@bot:hs'', outgoingQueue = [], client = None, wire = []\<rparr>
       \<lparr>ev_type = ''m.room.message'', ev_sender = Some ''@alice:hs'',
         ev_body = Some (JStr ''hello''), ev_ts = Some 1700000000000, ev_id = Some ''$e1''\<rparr>
       (Some \<lparr>roomId = ''!r:hs'', room_name = ''Room'', members = [''@alice:hs'' \<mapsto> ''Alice'']\<rparr>)))
   \<and> \<not> is_from_me
      \<lparr>msg_id = ''$e1'', chat_jid = ''!r:hs'', sender = ''@alice:hs'',
       sender_name = ''Alice'', content = ''hello'',
       timestamp = ''2023-11-14T22:13:20.000Z'', is_from_me = False, is_bot_message = False\<rparr>"
  using forwarded_message_not_from_me
    [of "''!r:hs''"
      "\<lparr>msg_id = ''$e1'', chat_jid = ''!r:hs'', sender = ''@alice:hs'',
       sender_name = ''Alice'', content = ''hello'',
       timestamp = ''2023-11-14T22:13:20.000Z'', is_from_me = False, is_bot_message = False\<rparr>"
      "''Andy''" "\<lambda>t. ''2023-11-14T22:13:20.000Z''" "\<lambda>u. [''!r:hs'' \<mapsto> ()]"
      "\<lparr>connected = True, userId = ''@bot:hs'', outgoingQueue = [], client = None, wire = []\<rparr>"
      "\<lparr>ev_type = ''m.room.message'', ev_sender = Some ''@alice:hs'',
         ev_body = Some (JStr ''hello''), ev_ts = Some 1700000000000, ev_id = Some ''$e1''\<rparr>"
      "Some \<lparr>roomId = ''!r:hs'', room_name = ''Room'', members = [''@alice:hs'' \<mapsto> ''Alice'']\<rparr>"]
  by (simp add: on_timeline_def Let_def or_else_def opt_or_def startsWith_def toISOString_def
      max_time_value_def body_or_empty_def lookup_truthy_def Object_prototype_keys_def)

section \<open>Properties of connecting\<close>

text \<open>
  C8. With a homeserver URL set, no access token, and not both a user name and a
  password, \<^verbatim>\<open>connect\<close> fails with the configuration error of line 76 and has made no
  call to the homeserver: no login and no client start. The adapter is not connected
  by it, and the queue is untouched.
\<close>

theorem connect_without_credentials_fails:
  assumes "truthy (MATRIX_HOMESERVER env)"
    and "\<not> truthy (MATRIX_ACCESS_TOKEN env)"
    and "\<not> (truthy (MATRIX_USERNAME env) \<and> truthy (MATRIX_PASSWORD env))"
  shows "fst (connect env login_answer sig s) =
           Inl (ConfigError ''Either MATRIX_ACCESS_TOKEN or MATRIX_USERNAME+MATRIX_PASSWORD required'')
    \<and> snd (snd (connect env login_answer sig s)) = []
    \<and> connected (fst (snd (connect env login_answer sig s))) = connected s
    \<and> outgoingQueue (fst (snd (connect env login_answer sig s))) = outgoingQueue s
    \<and> wire (fst (snd (connect env login_answer sig s))) = wire s"
  using assms by (auto simp: connect_def Let_def)

theorem connect_without_credentials_fails_witness:
  "truthy (MATRIX_HOMESERVER \<lparr>MATRIX_HOMESERVER = Some ''https://hs'', MATRIX_USERNAME = Some ''bot'',
       MATRIX_PASSWORD = None, MATRIX_ACCESS_TOKEN = Some [], MATRIX_USER_ID = None\<rparr>)
   \<and> \<not> truthy (MATRIX_ACCESS_TOKEN \<lparr>MATRIX_HOMESERVER = Some ''https://hs'', MATRIX_USERNAME = Some ''bot'',
       MATRIX_PASSWORD = None, MATRIX_ACCESS_TOKEN = Some [], MATRIX_USER_ID = None\<rparr>)
   \<and> \<not> truthy (MATRIX_PASSWORD \<lparr>MATRIX_HOMESERVER = Some ''https://hs'', MATRIX_USERNAME = Some ''bot'',
       MATRIX_PASSWORD = None, MATRIX_ACCESS_TOKEN = Some [], MATRIX_USER_ID = None\<rparr>)
   \<and> fst (connect \<lparr>MATRIX_HOMESERVER = Some ''https://hs'', MATRIX_USERNAME = Some ''bot'',
       MATRIX_PASSWORD = None, MATRIX_ACCESS_TOKEN = Some [], MATRIX_USER_ID = None\<rparr>
       (Inr \<lparr>user_id = ''@bot:hs'', access_token = ''secret''\<rparr>) (SyncState ''PREPARED'') new_adapter)
     = Inl (ConfigError ''Either MATRIX_ACCESS_TOKEN or MATRIX_USERNAME+MATRIX_PASSWORD required'')
   \<and> snd (snd (connect \<lparr>MATRIX_HOMESERVER = Some ''https://hs'', MATRIX_USERNAME = Some ''bot'',
       MATRIX_PASSWORD = None, MATRIX_ACCESS_TOKEN = Some [], MATRIX_USER_ID = None\<rparr>
       (Inr \<lparr>user_id = ''@bot:hs'', access_token = ''secret''\<rparr>) (SyncState ''PREPARED'') new_adapter))
     = []"
  using connect_without_credentials_fails
    [of "\<lparr>MATRIX_HOMESERVER = Some ''https://hs'', MATRIX_USERNAME = Some ''bot'',
       MATRIX_PASSWORD = None, MATRIX_ACCESS_TOKEN = Some [], MATRIX_USER_ID = None\<rparr>"
      "Inr \<lparr>user_id = ''@bot:hs'', access_token = ''secret''\<rparr>" "SyncState ''PREPARED''" new_adapter]
  by (simp add: truthy_def)

end
